theory Spec2Isabelle
  imports Main "HOL-Library.Word" "HOL-Library.Sublist" "HOL-Library.Log_Nat"
begin

section \<open>C strings, characters and the library functions used by \<open>print_mem.c\<close>\<close>

text \<open>
  The memory module of i3status (\<open>src/print_mem.c\<close>) is embedded for an LP64 target
  (Linux or FreeBSD on a 64-bit machine): \<open>unsigned long\<close> is a 64-bit word, so that
  \<open>*\<close>, \<open>-\<close> and \<open>+\<close> wrap modulo \<open>2 ^ 64\<close>, and \<open>/\<close> on it truncates.

  A C string is modelled by the list of its characters before the terminating NUL.
\<close>

type_synonym ulong = "64 word"

definition ULONG_MAX :: nat where
  "ULONG_MAX = 2 ^ 64 - 1"

definition BINARY_BASE :: ulong where
  "BINARY_BASE = 1024"

text \<open>\<open>isspace\<close> and \<open>isdigit\<close> of \<open>ctype.h\<close> in the C locale.\<close>

definition isspace :: "char \<Rightarrow> bool" where
  "isspace c \<longleftrightarrow> c = CHR '' '' \<or> c = CHR 0x09 \<or> c = CHR 0x0A \<or> c = CHR 0x0B
     \<or> c = CHR 0x0C \<or> c = CHR 0x0D"

definition isdigit :: "char \<Rightarrow> bool" where
  "isdigit c \<longleftrightarrow> (48::nat) \<le> of_char c \<and> (of_char c :: nat) \<le> 57"

definition digit_val :: "char \<Rightarrow> nat" where
  "digit_val c = of_char c - 48"

text \<open>The value of a run of decimal digits, most significant first.\<close>

definition decimal :: "string \<Rightarrow> nat" where
  "decimal ds = foldl (\<lambda>a c. 10 * a + digit_val c) 0 ds"

text \<open>
  \<open>strtoul(nptr, &endptr, 10)\<close>: leading white space is skipped, one sign is accepted,
  then the longest run of decimal digits is read. The result is the pair of the value and
  of the rest of the string at \<open>endptr\<close>. Without any digit the value is 0 and \<open>endptr\<close>
  is \<open>nptr\<close> itself; a magnitude above \<open>ULONG_MAX\<close> gives \<open>ULONG_MAX\<close>; a minus sign
  negates the value in \<open>unsigned long\<close>.
\<close>

definition strtoul :: "string \<Rightarrow> ulong \<times> string" where
  "strtoul nptr =
     (let s = dropWhile isspace nptr;
          negative = (case s of [] \<Rightarrow> False | c # _ \<Rightarrow> c = CHR ''-'');
          s1 = (case s of [] \<Rightarrow> [] | c # r \<Rightarrow> if c = CHR ''-'' \<or> c = CHR ''+'' then r else s);
          ds = takeWhile isdigit s1;
          n = decimal ds
      in if ds = [] then (0, nptr)
         else (if ULONG_MAX < n then word_of_nat ULONG_MAX
               else if negative then - word_of_nat n
               else word_of_nat n,
               dropWhile isdigit s1))"

section \<open>Threshold expressions: \<open>memory_absolute\<close>\<close>

text \<open>
  The \<open>switch\<close> of \<open>memory_absolute\<close> has no \<open>break\<close> between the cases \<open>T\<close>, \<open>G\<close>,
  \<open>M\<close> and \<open>K\<close>: entering at \<open>T\<close> runs four multiplications by \<open>BINARY_BASE\<close>, at \<open>G\<close>
  three, at \<open>M\<close> two and at \<open>K\<close> one. \<open>suffix_switch\<close> is that statement, applied to
  the character at \<open>endptr[0]\<close>.
\<close>

definition suffix_switch :: "char \<Rightarrow> ulong \<Rightarrow> ulong \<Rightarrow> ulong" where
  "suffix_switch c amount mem_total =
     (if c = CHR ''T'' \<or> c = CHR ''t'' then
        amount * BINARY_BASE * BINARY_BASE * BINARY_BASE * BINARY_BASE
      else if c = CHR ''G'' \<or> c = CHR ''g'' then
        amount * BINARY_BASE * BINARY_BASE * BINARY_BASE
      else if c = CHR ''M'' \<or> c = CHR ''m'' then
        amount * BINARY_BASE * BINARY_BASE
      else if c = CHR ''K'' \<or> c = CHR ''k'' then
        amount * BINARY_BASE
      else if c = CHR ''%'' then
        mem_total * amount div 100
      else amount)"

definition memory_absolute :: "string \<Rightarrow> ulong \<Rightarrow> ulong" where
  "memory_absolute mem_amount mem_total =
     (let (amount, endptr) = strtoul mem_amount
      in case dropWhile isspace endptr of
           [] \<Rightarrow> amount
         | c # _ \<Rightarrow> suffix_switch c amount mem_total)"

section \<open>Double precision values and \<open>printf\<close>\<close>

text \<open>
  A \<open>double\<close> is IEEE 754 binary64, evaluated in double precision with rounding to
  nearest, ties to even. The module only produces finite, non-negative doubles far from the
  subnormal and the overflow range (they come from 64-bit counters, multiplied by 100 or
  divided by 1024 or by another counter), so a double is modelled by the rational number
  it denotes, and every operation rounds its exact result to 53 significant bits:
  \<open>round_half_even\<close> rounds to an integer, \<open>round_binary64\<close> to a double.
\<close>

type_synonym double = rat

definition round_half_even :: "rat \<Rightarrow> int" where
  "round_half_even x =
     (let f = \<lfloor>x\<rfloor>; r = x - of_int f
      in if r < 1 / 2 then f
         else if 1 / 2 < r then f + 1
         else if even f then f else f + 1)"

text \<open>
  The exponent \<open>e\<close> of the unit in the last place of a positive \<open>x\<close>: the one with
  \<open>2 ^ 52 \<le> x / 2 ^ e < 2 ^ 53\<close>, found from the bit lengths of numerator and denominator.
\<close>

definition binary_exponent :: "rat \<Rightarrow> int" where
  "binary_exponent x =
     (let (a, b) = quotient_of x;
          e0 = int (floorlog 2 (nat a)) - int (floorlog 2 (nat b)) - 53
      in if x / power_int 2 e0 < 2 ^ 53 then e0 else e0 + 1)"

definition round_binary64 :: "rat \<Rightarrow> double" where
  "round_binary64 x =
     (if x \<le> 0 then 0
      else of_int (round_half_even (x / power_int 2 (binary_exponent x)))
           * power_int 2 (binary_exponent x))"

definition double_of_ulong :: "ulong \<Rightarrow> double" where
  "double_of_ulong w = round_binary64 (of_nat (unat w))"

definition fl_mul :: "double \<Rightarrow> double \<Rightarrow> double" where
  "fl_mul x y = round_binary64 (x * y)"

definition fl_div :: "double \<Rightarrow> double \<Rightarrow> double" where
  "fl_div x y = round_binary64 (x / y)"

definition digit_char :: "nat \<Rightarrow> char" where
  "digit_char d = ''0123456789'' ! d"

fun show_nat :: "nat \<Rightarrow> string" where
  "show_nat n = (if n < 10 then [digit_char n] else show_nat (n div 10) @ [digit_char (n mod 10)])"

text \<open>
  The conversion \<open>%.*f\<close> of \<open>printf\<close> for a non-negative double: the exact value is
  rounded to \<open>precision\<close> decimals (ties to even); a negative precision argument counts
  as omitted, which means 6; no decimal point is written for precision 0.
\<close>

definition printf_f :: "int \<Rightarrow> double \<Rightarrow> string" where
  "printf_f precision x =
     (let p = (if precision < 0 then 6 else nat precision);
          n = nat (round_half_even (x * 10 ^ p));
          frac = show_nat (n mod 10 ^ p)
      in show_nat (n div 10 ^ p) @
         (if p = 0 then [] else CHR ''.'' # replicate (p - length frac) CHR ''0'' @ frac))"

section \<open>Human readable byte counts: \<open>print_bytes_human\<close>\<close>

definition iec_symbols :: "string list" where
  "iec_symbols = [''B'', ''KiB'', ''MiB'', ''GiB'', ''TiB'']"

definition MAX_EXPONENT :: nat where
  "MAX_EXPONENT = length iec_symbols - 1"

text \<open>\<open>tolower\<close> in the C locale: the 26 capital letters are mapped, nothing else is.\<close>

definition tolower :: "char \<Rightarrow> char" where
  "tolower c =
     (case map_of (zip ''ABCDEFGHIJKLMNOPQRSTUVWXYZ'' ''abcdefghijklmnopqrstuvwxyz'') c of
        None \<Rightarrow> c
      | Some l \<Rightarrow> l)"

text \<open>
  \<open>strcasecmp\<close>: the difference of the first two characters that differ after
  \<open>tolower\<close>, the end of a string counting as the character 0; 0 when there is none.
\<close>

fun strcasecmp :: "string \<Rightarrow> string \<Rightarrow> int" where
  "strcasecmp [] [] = 0"
| "strcasecmp [] (b # bs) = - int (of_char (tolower b))"
| "strcasecmp (a # as) [] = int (of_char (tolower a))"
| "strcasecmp (a # as) (b # bs) =
     (if tolower a = tolower b then strcasecmp as bs
      else int (of_char (tolower a)) - int (of_char (tolower b)))"

text \<open>
  The \<open>while\<close> loop of \<open>print_bytes_human\<close>, from the values of \<open>base\<close> and
  \<open>exponent\<close> at its head to their values when it is left.
\<close>

function human_loop :: "string \<Rightarrow> double \<Rightarrow> nat \<Rightarrow> double \<times> nat" where
  "human_loop unit base exponent =
     (if double_of_ulong BINARY_BASE \<le> base \<and> exponent < MAX_EXPONENT then
        (if strcasecmp unit (iec_symbols ! exponent) = 0 then (base, exponent)
         else human_loop unit (fl_div base (double_of_ulong BINARY_BASE)) (exponent + 1))
      else (base, exponent))"
  by pat_completeness auto
termination
  by (relation "measure (\<lambda>(unit, base, exponent). MAX_EXPONENT - exponent)") auto

text \<open>
  \<open>print_bytes_human\<close> returns the text that \<open>sprintf\<close> writes at \<open>outwalk\<close>; the
  \<open>int\<close> that the C function returns is its length.
\<close>

definition print_bytes_human :: "ulong \<Rightarrow> string \<Rightarrow> int \<Rightarrow> string" where
  "print_bytes_human bytes unit decimals =
     (let (base, exponent) = human_loop unit (double_of_ulong bytes) 0
      in printf_f decimals base @ '' '' @ iec_symbols ! exponent)"

section \<open>Reading the counters\<close>

text \<open>
  Modelled from the spec: the macro \<open>BEGINS_WITH\<close> of \<open>i3status.h\<close> is not among the
  sources. A string begins with a needle when the needle is a prefix of it (the comparison
  is case sensitive and looks at \<open>strlen(needle)\<close> characters).
\<close>

definition BEGINS_WITH :: "string \<Rightarrow> string \<Rightarrow> bool" where
  "BEGINS_WITH haystack needle \<longleftrightarrow> prefix needle haystack"

text \<open>What a character buffer holds as a C string: the characters before the first NUL.\<close>

definition cstr :: "string \<Rightarrow> string" where
  "cstr buf = takeWhile (\<lambda>c. c \<noteq> CHR 0x00) buf"

text \<open>
  \<open>fgets(line, n, file)\<close> on the unread content of the file: at most \<open>n - 1\<close> characters
  are taken, and none after a newline. The result is the line and the content left.
\<close>

fun fgets :: "nat \<Rightarrow> string \<Rightarrow> string \<times> string" where
  "fgets n [] = ([], [])"
| "fgets n (c # cs) =
     (if n \<le> 1 then ([], c # cs)
      else if c = CHR 0x0A then ([c], cs)
      else (let (l, r) = fgets (n - 1) cs in (c # l, r)))"

text \<open>
  The six counters as the loop over \<open>/proc/meminfo\<close> leaves them: the value in kB that
  was parsed for a label, or \<open>None\<close> while the variable has not been assigned
  (\<open>ram_total\<close> for \<open>MemTotal\<close>, \<open>ram_free\<close> for \<open>MemFree\<close>, \<open>ram_available\<close> for
  \<open>MemAvailable\<close>, \<open>ram_buffers\<close> for \<open>Buffers\<close>, \<open>ram_cached\<close> for \<open>Cached\<close>,
  \<open>ram_shared\<close> for \<open>Shmem\<close>).
\<close>

record meminfo =
  MemTotal :: "ulong option"
  MemFree :: "ulong option"
  MemAvailable :: "ulong option"
  Buffers :: "ulong option"
  Cached :: "ulong option"
  Shmem :: "ulong option"

definition unread :: meminfo where
  "unread = \<lparr>MemTotal = None, MemFree = None, MemAvailable = None, Buffers = None,
     Cached = None, Shmem = None\<rparr>"

text \<open>
  The body of the loop up to \<open>continue\<close>: \<open>None\<close> when the line has none of the six
  labels, otherwise the counters after the assignment.
\<close>

definition meminfo_line :: "string \<Rightarrow> meminfo \<Rightarrow> meminfo option" where
  "meminfo_line line m =
     (if BEGINS_WITH line ''MemTotal:'' then
        Some (m\<lparr>MemTotal := Some (fst (strtoul (drop (length ''MemTotal:'') line)))\<rparr>)
      else if BEGINS_WITH line ''MemFree:'' then
        Some (m\<lparr>MemFree := Some (fst (strtoul (drop (length ''MemFree:'') line)))\<rparr>)
      else if BEGINS_WITH line ''MemAvailable:'' then
        Some (m\<lparr>MemAvailable := Some (fst (strtoul (drop (length ''MemAvailable:'') line)))\<rparr>)
      else if BEGINS_WITH line ''Buffers:'' then
        Some (m\<lparr>Buffers := Some (fst (strtoul (drop (length ''Buffers:'') line)))\<rparr>)
      else if BEGINS_WITH line ''Cached:'' then
        Some (m\<lparr>Cached := Some (fst (strtoul (drop (length ''Cached:'') line)))\<rparr>)
      else if BEGINS_WITH line ''Shmem:'' then
        Some (m\<lparr>Shmem := Some (fst (strtoul (drop (length ''Shmem:'') line)))\<rparr>)
      else None)"

text \<open>
  The \<open>for\<close> loop over the lines of the file, from the unread content, \<open>unread_fields\<close>
  and the counters to the values of \<open>unread_fields\<close> and of the counters after it.
\<close>

function meminfo_loop :: "string \<Rightarrow> int \<Rightarrow> meminfo \<Rightarrow> int \<times> meminfo" where
  "meminfo_loop file unread_fields m =
     (if file = [] then (unread_fields, m)
      else (case meminfo_line (cstr (fst (fgets 128 file))) m of
              None \<Rightarrow> meminfo_loop (snd (fgets 128 file)) unread_fields m
            | Some m' \<Rightarrow>
                if unread_fields - 1 = 0 then (unread_fields - 1, m')
                else meminfo_loop (snd (fgets 128 file)) (unread_fields - 1) m'))"
  by pat_completeness auto
termination
proof (relation "measure (\<lambda>(file, unread_fields, m). length file)")
  have le: "length (snd (fgets n cs)) \<le> length cs" for n cs
    by (induction n cs rule: fgets.induct) (auto split: prod.splits)
  have less: "length (snd (fgets 128 cs)) < length cs" if "cs \<noteq> []" for cs
    using that le [of 127 "tl cs"] by (cases cs) (auto split: prod.splits)
  show "wf (measure (\<lambda>(file, unread_fields, m). length file))"
    by simp
  show "((snd (fgets 128 cs), unread_fields, m), cs, unread_fields, m)
          \<in> measure (\<lambda>(file, unread_fields, m). length file)"
    if "cs \<noteq> []" for cs unread_fields and m :: meminfo
    using less [OF that] by simp
  show "((snd (fgets 128 cs), unread_fields - 1, m'), cs, unread_fields, m)
          \<in> measure (\<lambda>(file, unread_fields, m). length file)"
    if "cs \<noteq> []" for cs unread_fields and m m' :: meminfo
    using less [OF that] by simp
qed

text \<open>The counters in bytes, once every one of them has a value.\<close>

record snapshot =
  ram_total :: ulong
  ram_free :: ulong
  ram_available :: ulong
  ram_buffers :: ulong
  ram_cached :: ulong
  ram_shared :: ulong

text \<open>
  What C leaves undefined and the model reports instead of a result: the read of a local
  variable that was never assigned (the name of the variable is kept), an overflow of
  signed arithmetic, a division by zero (with IEEE arithmetic the quotient is an infinity
  or a NaN, and the text that \<open>printf\<close> writes for it depends on the platform).
\<close>

datatype fault = Uninitialized_Read string | Signed_Overflow | Division_By_Zero

text \<open>
  The conversion from kB to bytes (\<open>ram_total *= 1024UL\<close> and the five lines after it)
  reads the six variables in this order.
\<close>

definition to_bytes :: "meminfo \<Rightarrow> fault + snapshot" where
  "to_bytes m =
     (case MemTotal m of None \<Rightarrow> Inl (Uninitialized_Read ''ram_total'') | Some t \<Rightarrow>
     (case MemFree m of None \<Rightarrow> Inl (Uninitialized_Read ''ram_free'') | Some f \<Rightarrow>
     (case MemAvailable m of None \<Rightarrow> Inl (Uninitialized_Read ''ram_available'') | Some a \<Rightarrow>
     (case Buffers m of None \<Rightarrow> Inl (Uninitialized_Read ''ram_buffers'') | Some b \<Rightarrow>
     (case Cached m of None \<Rightarrow> Inl (Uninitialized_Read ''ram_cached'') | Some c \<Rightarrow>
     (case Shmem m of None \<Rightarrow> Inl (Uninitialized_Read ''ram_shared'') | Some s \<Rightarrow>
        Inr \<lparr>ram_total = t * 1024, ram_free = f * 1024, ram_available = a * 1024,
             ram_buffers = b * 1024, ram_cached = c * 1024, ram_shared = s * 1024\<rparr>))))))"

text \<open>
  The host, as the preprocessor and the system present it.
  \<^item> \<open>Linux file\<close>: \<open>file\<close> is \<open>None\<close> when \<open>fopen\<close> fails, otherwise the content that
    \<open>fgets\<close> can read from \<open>/proc/meminfo\<close>.
  \<^item> \<open>FreeBSD page_size physmem free_count\<close>: the values of the three \<open>sysctlbyname\<close>
    calls, \<open>None\<close> for a call that fails.
  \<^item> \<open>Unsupported\<close>: neither.
\<close>

datatype host =
  Linux "string option"
| FreeBSD "32 word option" "ulong option" "32 word option"
| Unsupported

datatype reading = Snapshot snapshot | Cannot_Read | Not_Supported | Undefined fault

definition LONG_MAX :: nat where
  "LONG_MAX = 2 ^ 63 - 1"

definition read_linux :: "string option \<Rightarrow> reading" where
  "read_linux file =
     (case file of
        None \<Rightarrow> Cannot_Read
      | Some content \<Rightarrow>
          (let (unread_fields, m) = meminfo_loop content 6 unread
           in if 0 < unread_fields then Cannot_Read
              else (case to_bytes m of Inl f \<Rightarrow> Undefined f | Inr s \<Rightarrow> Snapshot s)))"

text \<open>
  On FreeBSD \<open>ram_free\<close> is the product of two \<open>uint32_t\<close> values converted to \<open>long\<close>,
  computed in \<open>long\<close>.
\<close>

definition read_freebsd :: "32 word option \<Rightarrow> ulong option \<Rightarrow> 32 word option \<Rightarrow> reading" where
  "read_freebsd page_size physmem free_count =
     (case page_size of None \<Rightarrow> Cannot_Read | Some ps \<Rightarrow>
     (case physmem of None \<Rightarrow> Cannot_Read | Some t \<Rightarrow>
     (case free_count of None \<Rightarrow> Cannot_Read | Some fc \<Rightarrow>
        if LONG_MAX < unat fc * unat ps then Undefined Signed_Overflow
        else Snapshot \<lparr>ram_total = t, ram_free = word_of_nat (unat fc * unat ps),
               ram_available = 0, ram_buffers = 0, ram_cached = 0, ram_shared = 0\<rparr>)))"

fun read_memory :: "host \<Rightarrow> reading" where
  "read_memory (Linux file) = read_linux file"
| "read_memory (FreeBSD page_size physmem free_count) = read_freebsd page_size physmem free_count"
| "read_memory Unsupported = Not_Supported"

section \<open>Used memory, thresholds and the choice of the format\<close>

text \<open>
  \<open>ram_used\<close> is declared without a value and assigned under one of two conditions:
  \<open>None\<close> is the variable left unassigned.
\<close>

definition ram_used :: "string \<Rightarrow> snapshot \<Rightarrow> ulong option" where
  "ram_used memory_used_method s =
     (if BEGINS_WITH memory_used_method ''memavailable'' then
        Some (ram_total s - ram_available s)
      else if BEGINS_WITH memory_used_method ''classical'' then
        Some (ram_total s - ram_free s - ram_buffers s - ram_cached s)
      else None)"

text \<open>
  \<open>output_color\<close> starts as \<open>NULL\<close>; the degraded threshold is looked at first, the
  critical threshold second. A threshold that is \<open>NULL\<close> is \<open>None\<close>.
\<close>

definition output_color :: "string option \<Rightarrow> string option \<Rightarrow> snapshot \<Rightarrow> string option" where
  "output_color threshold_degraded threshold_critical s =
     (let color0 = None;
          color1 = (case threshold_degraded of
                      None \<Rightarrow> color0
                    | Some spec \<Rightarrow>
                        if ram_available s < memory_absolute spec (ram_total s)
                        then Some ''color_degraded'' else color0)
      in case threshold_critical of
           None \<Rightarrow> color1
         | Some spec \<Rightarrow>
             if ram_available s < memory_absolute spec (ram_total s)
             then Some ''color_bad'' else color1)"

definition selected_format :: "string \<Rightarrow> string option \<Rightarrow> string option \<Rightarrow> string" where
  "selected_format format format_degraded color =
     (case color of
        None \<Rightarrow> format
      | Some _ \<Rightarrow> (case format_degraded of None \<Rightarrow> format | Some fd \<Rightarrow> fd))"

section \<open>The walk over the format\<close>

text \<open>The text written so far, followed by what the rest of the walk writes.\<close>

definition emit :: "string \<Rightarrow> fault + string \<Rightarrow> fault + string" where
  "emit text rest = (case rest of Inl f \<Rightarrow> Inl f | Inr out \<Rightarrow> Inr (text @ out))"

text \<open>
  \<open>sprintf(outwalk, "%.01f%s", 100.0 * x / ram_total, pct_mark)\<close>: both counters are
  converted to \<open>double\<close>, the product is computed first and then the quotient. A total
  of zero is reported as a fault.
\<close>

definition percentage :: "string \<Rightarrow> ulong \<Rightarrow> ulong \<Rightarrow> fault + string" where
  "percentage pct_mark x mem_total =
     (if mem_total = 0 then Inl Division_By_Zero
      else Inr (printf_f 1 (fl_div (fl_mul 100 (double_of_ulong x)) (double_of_ulong mem_total))
                @ pct_mark))"

definition emit_percentage :: "fault + string \<Rightarrow> fault + string \<Rightarrow> fault + string" where
  "emit_percentage text rest = (case text of Inl f \<Rightarrow> Inl f | Inr t \<Rightarrow> emit t rest)"

text \<open>
  The \<open>for\<close> loop over \<open>selected_format\<close>: the result is the text written to the buffer
  from the position \<open>walk\<close> on. \<open>c # walk\<close> is the format at the current position, so
  \<open>walk\<close> is \<open>walk + 1\<close> of the C code, and \<open>walk += strlen(token)\<close> followed by
  \<open>walk++\<close> continues at \<open>drop (length token) walk\<close>.
\<close>

function format_walk ::
  "string \<Rightarrow> string \<Rightarrow> int \<Rightarrow> snapshot \<Rightarrow> ulong option \<Rightarrow> string \<Rightarrow> fault + string" where
  "format_walk pct_mark unit decimals s used [] = Inr []"
| "format_walk pct_mark unit decimals s used (c # walk) =
     (if c \<noteq> CHR ''%'' then
        emit [c] (format_walk pct_mark unit decimals s used walk)
      else if BEGINS_WITH walk ''total'' then
        emit (print_bytes_human (ram_total s) unit decimals)
          (format_walk pct_mark unit decimals s used (drop (length ''total'') walk))
      else if BEGINS_WITH walk ''used'' then
        (case used of
           None \<Rightarrow> Inl (Uninitialized_Read ''ram_used'')
         | Some u \<Rightarrow>
             emit (print_bytes_human u unit decimals)
               (format_walk pct_mark unit decimals s used (drop (length ''used'') walk)))
      else if BEGINS_WITH walk ''free'' then
        emit (print_bytes_human (ram_free s) unit decimals)
          (format_walk pct_mark unit decimals s used (drop (length ''free'') walk))
      else if BEGINS_WITH walk ''available'' then
        emit (print_bytes_human (ram_available s) unit decimals)
          (format_walk pct_mark unit decimals s used (drop (length ''available'') walk))
      else if BEGINS_WITH walk ''shared'' then
        emit (print_bytes_human (ram_shared s) unit decimals)
          (format_walk pct_mark unit decimals s used (drop (length ''shared'') walk))
      else if BEGINS_WITH walk ''percentage_free'' then
        emit_percentage (percentage pct_mark (ram_free s) (ram_total s))
          (format_walk pct_mark unit decimals s used (drop (length ''percentage_free'') walk))
      else if BEGINS_WITH walk ''percentage_available'' then
        emit_percentage (percentage pct_mark (ram_available s) (ram_total s))
          (format_walk pct_mark unit decimals s used
             (drop (length ''percentage_available'') walk))
      else if BEGINS_WITH walk ''percentage_used'' then
        (case used of
           None \<Rightarrow> Inl (Uninitialized_Read ''ram_used'')
         | Some u \<Rightarrow>
             emit_percentage (percentage pct_mark u (ram_total s))
               (format_walk pct_mark unit decimals s used
                  (drop (length ''percentage_used'') walk)))
      else if BEGINS_WITH walk ''percentage_shared'' then
        emit_percentage (percentage pct_mark (ram_shared s) (ram_total s))
          (format_walk pct_mark unit decimals s used (drop (length ''percentage_shared'') walk))
      else emit ''%'' (format_walk pct_mark unit decimals s used walk))"
  by pat_completeness auto
termination
  by (relation "measure (\<lambda>(pct_mark, unit, decimals, s, used, walk). length walk)") auto

section \<open>\<open>print_memory\<close>\<close>

text \<open>
  Modelled from the spec: the macros \<open>OUTPUT_FULL_TEXT\<close>, \<open>START_COLOR\<close> and
  \<open>END_COLOR\<close> and the global \<open>pct_mark\<close> of \<open>i3status.h\<close> are not among the sources.
  The output sink is external: \<open>full_text\<close> is the argument of \<open>OUTPUT_FULL_TEXT\<close>,
  \<open>color\<close> the argument of \<open>START_COLOR\<close> when it is reached, \<open>diagnostic\<close> what
  \<open>fputs\<close> writes to \<open>stderr\<close>. The marker pair that wraps the text of a coloured
  output belongs to the sink and is a parameter: \<open>color_start\<close> is what \<open>START_COLOR\<close>
  appends to the buffer for a colour name, \<open>color_end\<close> what \<open>END_COLOR\<close> appends.
\<close>

record sink =
  pct_mark :: string
  color_start :: "string \<Rightarrow> string"
  color_end :: string

record emitted =
  full_text :: string
  color :: "string option"
  diagnostic :: string

definition print_memory ::
  "sink \<Rightarrow> host \<Rightarrow> string \<Rightarrow> string option \<Rightarrow> string option \<Rightarrow> string option \<Rightarrow> string
     \<Rightarrow> string \<Rightarrow> int \<Rightarrow> fault + emitted" where
  "print_memory env h format format_degraded threshold_degraded threshold_critical
     memory_used_method unit decimals =
     (case read_memory h of
        Not_Supported \<Rightarrow>
          Inr \<lparr>full_text = [], color = None,
               diagnostic =
                 ''i3status: Memory status information is not supported on this system\<newline>''\<rparr>
      | Cannot_Read \<Rightarrow>
          Inr \<lparr>full_text = ''can't read memory'', color = None,
               diagnostic = ''i3status: Cannot read system memory\<newline>''\<rparr>
      | Undefined f \<Rightarrow> Inl f
      | Snapshot s \<Rightarrow>
          (let used = ram_used memory_used_method s;
               oc = output_color threshold_degraded threshold_critical s;
               fmt = selected_format format format_degraded oc
           in case format_walk (pct_mark env) unit decimals s used fmt of
                Inl f \<Rightarrow> Inl f
              | Inr text \<Rightarrow>
                  Inr \<lparr>full_text =
                         (case oc of
                            None \<Rightarrow> text
                          | Some name \<Rightarrow> color_start env name @ text @ color_end env),
                       color = oc, diagnostic = []\<rparr>))"

section \<open>Notions used to state the properties\<close>

text \<open>The nine placeholder names that the walk over the format compares with, in its order.\<close>

definition token_names :: "string list" where
  "token_names = [''total'', ''used'', ''free'', ''available'', ''shared'', ''percentage_free'',
     ''percentage_available'', ''percentage_used'', ''percentage_shared'']"

text \<open>The six labels that the loop over \<open>/proc/meminfo\<close> compares with, in its order.\<close>

definition meminfo_labels :: "string list" where
  "meminfo_labels = [''MemTotal:'', ''MemFree:'', ''MemAvailable:'', ''Buffers:'', ''Cached:'',
     ''Shmem:'']"

definition recognized :: "string \<Rightarrow> bool" where
  "recognized line \<longleftrightarrow> list_ex (BEGINS_WITH (cstr line)) meminfo_labels"

text \<open>All the lines that \<open>fgets\<close> with a buffer of 128 characters reads from a content.\<close>

function lines_of :: "string \<Rightarrow> string list" where
  "lines_of file =
     (if file = [] then [] else fst (fgets 128 file) # lines_of (snd (fgets 128 file)))"
  by pat_completeness auto
termination
proof (relation "measure length")
  have le: "length (snd (fgets n cs)) \<le> length cs" for n cs
    by (induction n cs rule: fgets.induct) (auto split: prod.splits)
  have less: "length (snd (fgets 128 cs)) < length cs" if "cs \<noteq> []" for cs
    using that le [of 127 "tl cs"] by (cases cs) (auto split: prod.splits)
  show "wf (measure length)"
    by simp
  show "(snd (fgets 128 cs), cs) \<in> measure length" if "cs \<noteq> []" for cs :: string
    using less [OF that] by simp
qed

text \<open>The number of lines of a content that begin with one of the six labels.\<close>

definition matched_lines :: "string \<Rightarrow> nat" where
  "matched_lines file = length (filter recognized (lines_of file))"

text \<open>
  The values that a double can hold, among those the module produces: \<open>m * 2 ^ k\<close> with
  a significand \<open>m\<close> below \<open>2 ^ 53\<close>.
\<close>

definition representable :: "rat \<Rightarrow> bool" where
  "representable x \<longleftrightarrow> (\<exists>m k. m < (2::nat) ^ 53 \<and> x = of_nat m * power_int 2 k)"

section \<open>Evaluation of concrete inputs\<close>

lemmas threshold_eval = memory_absolute_def strtoul_def isspace_def isdigit_def decimal_def
  digit_val_def suffix_switch_def BINARY_BASE_def ULONG_MAX_def

section \<open>Used memory\<close>

text \<open>
  Claim C4. For every snapshot, the used value is \<open>total - available\<close> under the policy
  \<open>memavailable\<close> and \<open>total - free - buffers - cached\<close> under the policy \<open>classical\<close>.
  Both are computed in 64-bit unsigned arithmetic: the result is the difference of the
  counters modulo \<open>2 ^ 64\<close>, so inconsistent counters wrap and are not clamped at 0. There
  is a snapshot for which the two policies give different values.
\<close>

theorem ram_used_policies:
  "ram_used ''memavailable'' s = Some (ram_total s - ram_available s)
   \<and> ram_used ''classical'' s = Some (ram_total s - ram_free s - ram_buffers s - ram_cached s)
   \<and> uint (ram_total s - ram_available s)
       = (uint (ram_total s) - uint (ram_available s)) mod 2 ^ 64
   \<and> uint (ram_total s - ram_free s - ram_buffers s - ram_cached s)
       = (uint (ram_total s) - uint (ram_free s) - uint (ram_buffers s) - uint (ram_cached s))
         mod 2 ^ 64
   \<and> (\<exists>s'. ram_used ''memavailable'' s' \<noteq> ram_used ''classical'' s')"
proof -
  have 1: "ram_used ''memavailable'' s = Some (ram_total s - ram_available s)"
    by (simp add: ram_used_def BEGINS_WITH_def)
  have 2: "ram_used ''classical'' s
             = Some (ram_total s - ram_free s - ram_buffers s - ram_cached s)"
    by (simp add: ram_used_def BEGINS_WITH_def)
  have 3: "uint (ram_total s - ram_available s)
             = (uint (ram_total s) - uint (ram_available s)) mod 2 ^ 64"
    by (simp add: uint_word_ariths)
  have 4: "uint (ram_total s - ram_free s - ram_buffers s - ram_cached s)
             = (uint (ram_total s) - uint (ram_free s) - uint (ram_buffers s)
                - uint (ram_cached s)) mod 2 ^ 64"
    by (simp add: uint_word_ariths mod_diff_left_eq)
  have "ram_used ''memavailable'' \<lparr>ram_total = 100, ram_free = 10, ram_available = 50,
          ram_buffers = 0, ram_cached = 0, ram_shared = 0\<rparr>
        \<noteq> ram_used ''classical'' \<lparr>ram_total = 100, ram_free = 10, ram_available = 50,
          ram_buffers = 0, ram_cached = 0, ram_shared = 0\<rparr>"
    by (simp add: ram_used_def BEGINS_WITH_def)
  then have 5: "\<exists>s'. ram_used ''memavailable'' s' \<noteq> ram_used ''classical'' s'"
    by blast
  from 1 2 3 4 5 show ?thesis by blast
qed

text \<open>With total 0 and available 1024 the policy \<open>memavailable\<close> gives \<open>2 ^ 64 - 1024\<close>.\<close>

theorem ram_used_policies_witness:
  "ram_used ''memavailable'' \<lparr>ram_total = 0, ram_free = 0, ram_available = 1024,
      ram_buffers = 0, ram_cached = 0, ram_shared = 0\<rparr> = Some 18446744073709550592
   \<and> ram_used ''classical'' \<lparr>ram_total = 0, ram_free = 0, ram_available = 1024,
      ram_buffers = 0, ram_cached = 0, ram_shared = 0\<rparr> = Some 0"
  using ram_used_policies [of "\<lparr>ram_total = 0, ram_free = 0, ram_available = 1024,
      ram_buffers = 0, ram_cached = 0, ram_shared = 0\<rparr>"]
  by simp

text \<open>
  Claim C10. The policy name is matched by prefix: every method string that begins with
  \<open>memavailable\<close> selects \<open>total - available\<close>, every string that begins with
  \<open>classical\<close> selects \<open>total - free - buffers - cached\<close>. For a string with neither
  prefix \<open>ram_used\<close> is left unassigned, nothing rejects the name, and the walk over a
  format reads the unassigned variable at \<open>%used\<close> and at \<open>%percentage_used\<close>.
\<close>

theorem ram_used_prefix:
  "ram_used (''memavailable'' @ rest) s = Some (ram_total s - ram_available s)
   \<and> ram_used (''classical'' @ rest) s
       = Some (ram_total s - ram_free s - ram_buffers s - ram_cached s)
   \<and> (\<not> prefix ''memavailable'' m \<and> \<not> prefix ''classical'' m \<longrightarrow>
        ram_used m s = None
        \<and> format_walk pm u decimals s (ram_used m s) (''%used'' @ walk)
            = Inl (Uninitialized_Read ''ram_used'')
        \<and> format_walk pm u decimals s (ram_used m s) (''%percentage_used'' @ walk)
            = Inl (Uninitialized_Read ''ram_used''))"
  by (simp add: ram_used_def BEGINS_WITH_def)

text \<open>The method \<open>memavail\<close> has neither prefix.\<close>

theorem ram_used_prefix_witness:
  "\<not> prefix ''memavailable'' ''memavail'' \<and> \<not> prefix ''classical'' ''memavail''
   \<and> ram_used ''memavail'' \<lparr>ram_total = 100, ram_free = 10, ram_available = 50,
          ram_buffers = 0, ram_cached = 0, ram_shared = 0\<rparr> = None
   \<and> format_walk ''%'' ''auto'' 1 \<lparr>ram_total = 100, ram_free = 10, ram_available = 50,
          ram_buffers = 0, ram_cached = 0, ram_shared = 0\<rparr> None ''%used''
       = Inl (Uninitialized_Read ''ram_used'')"
  using ram_used_prefix [of "[]" "\<lparr>ram_total = 100, ram_free = 10, ram_available = 50,
          ram_buffers = 0, ram_cached = 0, ram_shared = 0\<rparr>" "''memavail''" "''%''"
          "''auto''" 1 "[]"]
  by (simp add: ram_used_def BEGINS_WITH_def)

section \<open>Colour state and format\<close>

text \<open>
  Claim C3. The colour is \<open>color_bad\<close> (critical) when a critical threshold is configured
  and \<open>available\<close> is below its resolved value, whatever the degraded threshold says;
  otherwise it is \<open>color_degraded\<close> (degraded) when a degraded threshold is configured and
  \<open>available\<close> is below its resolved value; otherwise there is none (normal). A threshold
  that is absent is not looked at. So \<open>available\<close> below the degraded and not below the
  critical value is degraded, and below both is critical. This is the colour that
  \<open>print_memory\<close> hands to the sink whenever it writes a formatted text.
\<close>

theorem output_color_classification:
  "output_color None None s = None
   \<and> output_color (Some d) None s =
       (if ram_available s < memory_absolute d (ram_total s) then Some ''color_degraded''
        else None)
   \<and> output_color None (Some c) s =
       (if ram_available s < memory_absolute c (ram_total s) then Some ''color_bad'' else None)
   \<and> output_color (Some d) (Some c) s =
       (if ram_available s < memory_absolute c (ram_total s) then Some ''color_bad''
        else if ram_available s < memory_absolute d (ram_total s) then Some ''color_degraded''
        else None)
   \<and> (read_memory h = Snapshot s
        \<and> print_memory env h format format_degraded td tc memory_used_method u decimals = Inr out
        \<longrightarrow> color out = output_color td tc s)"
  by (auto simp: output_color_def print_memory_def Let_def split: sum.splits)

text \<open>
  With a total of 1000 bytes, a degraded threshold of 20% and a critical one of 10%: 150
  bytes available are degraded, 50 are critical.
\<close>

theorem output_color_classification_witness:
  "output_color (Some ''20%'') (Some ''10%'') \<lparr>ram_total = 1000, ram_free = 0,
      ram_available = 150, ram_buffers = 0, ram_cached = 0, ram_shared = 0\<rparr>
     = Some ''color_degraded''
   \<and> output_color (Some ''20%'') (Some ''10%'') \<lparr>ram_total = 1000, ram_free = 0,
      ram_available = 50, ram_buffers = 0, ram_cached = 0, ram_shared = 0\<rparr>
     = Some ''color_bad''"
  using output_color_classification [of "\<lparr>ram_total = 1000, ram_free = 0,
      ram_available = 150, ram_buffers = 0, ram_cached = 0, ram_shared = 0\<rparr>" "''20%''" "''10%''"]
    output_color_classification [of "\<lparr>ram_total = 1000, ram_free = 0,
      ram_available = 50, ram_buffers = 0, ram_cached = 0, ram_shared = 0\<rparr>" "''20%''" "''10%''"]
  by (simp add: threshold_eval)

lemma output_color_cases:
  "output_color td tc s = None \<or> output_color td tc s = Some ''color_degraded''
   \<or> output_color td tc s = Some ''color_bad''"
  by (cases td; cases tc) (simp_all add: output_color_def)

text \<open>
  Claim C8. The format that is walked is the degraded format exactly when the colour is
  degraded or critical and a degraded format is configured; in every other case it is the
  primary format. The critical state selects the same format as the degraded state. For
  \<open>print_memory\<close> as a whole: without a colour the degraded format has no effect, and
  with a colour a configured degraded format takes the place of the primary one.
\<close>

theorem format_selection:
  "selected_format format format_degraded (output_color td tc s) =
     (case format_degraded of
        None \<Rightarrow> format
      | Some fd \<Rightarrow>
          if output_color td tc s = Some ''color_degraded''
             \<or> output_color td tc s = Some ''color_bad''
          then fd else format)
   \<and> selected_format format format_degraded (Some ''color_bad'')
       = selected_format format format_degraded (Some ''color_degraded'')
   \<and> (read_memory h = Snapshot s \<and> output_color td tc s = None \<longrightarrow>
        print_memory env h format format_degraded td tc memory_used_method u decimals
          = print_memory env h format None td tc memory_used_method u decimals)
   \<and> (read_memory h = Snapshot s \<and> output_color td tc s \<noteq> None \<longrightarrow>
        print_memory env h format (Some override) td tc memory_used_method u decimals
          = print_memory env h override None td tc memory_used_method u decimals)"
proof -
  have 1: "selected_format format format_degraded (output_color td tc s) =
     (case format_degraded of
        None \<Rightarrow> format
      | Some fd \<Rightarrow>
          if output_color td tc s = Some ''color_degraded''
             \<or> output_color td tc s = Some ''color_bad''
          then fd else format)"
    using output_color_cases [of td tc s]
    by (auto simp: selected_format_def split: option.splits)
  have 2: "selected_format format format_degraded (Some ''color_bad'')
       = selected_format format format_degraded (Some ''color_degraded'')"
    by (simp add: selected_format_def)
  have 3: "print_memory env h format format_degraded td tc memory_used_method u decimals
          = print_memory env h format None td tc memory_used_method u decimals"
    if "read_memory h = Snapshot s" "output_color td tc s = None"
    using that by (simp add: print_memory_def selected_format_def)
  have 4: "print_memory env h format (Some override) td tc memory_used_method u decimals
          = print_memory env h override None td tc memory_used_method u decimals"
    if "read_memory h = Snapshot s" "output_color td tc s \<noteq> None"
    using that by (auto simp: print_memory_def selected_format_def)
  from 1 2 3 4 show ?thesis
    by blast
qed

text \<open>
  On a FreeBSD host \<open>available\<close> is 0, so a degraded threshold of 10% of 1 MiB sets the
  colour, and the degraded format is the one that is written, between the two markers.
\<close>

theorem format_selection_witness:
  "read_memory (FreeBSD (Some 4096) (Some 1048576) (Some 16))
     = Snapshot \<lparr>ram_total = 1048576, ram_free = 65536, ram_available = 0, ram_buffers = 0,
         ram_cached = 0, ram_shared = 0\<rparr>
   \<and> output_color (Some ''10%'') None \<lparr>ram_total = 1048576, ram_free = 65536,
         ram_available = 0, ram_buffers = 0, ram_cached = 0, ram_shared = 0\<rparr>
       = Some ''color_degraded''
   \<and> print_memory \<lparr>pct_mark = ''%'', color_start = (@) ''#'', color_end = ''!''\<rparr>
         (FreeBSD (Some 4096) (Some 1048576) (Some 16)) ''ok'' (Some ''low'') (Some ''10%'') None
         ''classical'' ''auto'' 1
       = Inr \<lparr>full_text = ''#color_degradedlow!'', color = Some ''color_degraded'',
               diagnostic = []\<rparr>"
proof -
  have r: "read_memory (FreeBSD (Some 4096) (Some 1048576) (Some 16))
     = Snapshot \<lparr>ram_total = 1048576, ram_free = 65536, ram_available = 0, ram_buffers = 0,
         ram_cached = 0, ram_shared = 0\<rparr>"
    by (simp add: read_freebsd_def LONG_MAX_def)
  have c: "output_color (Some ''10%'') None \<lparr>ram_total = 1048576, ram_free = 65536,
         ram_available = 0, ram_buffers = 0, ram_cached = 0, ram_shared = 0\<rparr>
       = Some ''color_degraded''"
    by (simp add: output_color_def threshold_eval)
  have "print_memory \<lparr>pct_mark = ''%'', color_start = (@) ''#'', color_end = ''!''\<rparr>
         (FreeBSD (Some 4096) (Some 1048576) (Some 16)) ''low'' None (Some ''10%'') None
         ''classical'' ''auto'' 1
       = Inr \<lparr>full_text = ''#color_degradedlow!'', color = Some ''color_degraded'',
               diagnostic = []\<rparr>"
    by (simp add: print_memory_def read_freebsd_def LONG_MAX_def c selected_format_def emit_def)
  with r c format_selection [of "''ok''" "Some ''low''" "Some ''10%''" None
      "\<lparr>ram_total = 1048576, ram_free = 65536, ram_available = 0, ram_buffers = 0,
         ram_cached = 0, ram_shared = 0\<rparr>" "FreeBSD (Some 4096) (Some 1048576) (Some 16)"
      "\<lparr>pct_mark = ''%'', color_start = (@) ''#'', color_end = ''!''\<rparr>"
      "''classical''" "''auto''" 1 "''low''"]
  show ?thesis
    by simp
qed

section \<open>Placeholders\<close>

text \<open>
  Claim C7. Where \<open>%\<close> is not followed by one of the nine placeholder names (compared
  case sensitively), the walk writes the character \<open>%\<close> and goes on with the very next
  character, consuming nothing else: the format \<open>%bogus\<close> gives \<open>%bogus\<close>.
\<close>

theorem unrecognized_placeholder:
  "((\<forall>t \<in> set token_names. \<not> prefix t walk) \<longrightarrow>
      format_walk pm u decimals s used (CHR ''%'' # walk)
        = emit ''%'' (format_walk pm u decimals s used walk))
   \<and> format_walk pm u decimals s used ''%bogus'' = Inr ''%bogus''"
  by (simp add: token_names_def BEGINS_WITH_def emit_def)

text \<open>The names are case sensitive: \<open>%Total\<close> is no placeholder and stays as it is.\<close>

theorem unrecognized_placeholder_witness:
  "\<not> (\<exists>t \<in> set token_names. prefix t ''Total'')
   \<and> format_walk ''%'' ''auto'' 1 \<lparr>ram_total = 100, ram_free = 10, ram_available = 50,
          ram_buffers = 0, ram_cached = 0, ram_shared = 0\<rparr> None ''%Total'' = Inr ''%Total''"
  using unrecognized_placeholder [of "''Total''" "''%''" "''auto''" 1
      "\<lparr>ram_total = 100, ram_free = 10, ram_available = 50,
          ram_buffers = 0, ram_cached = 0, ram_shared = 0\<rparr>" None]
  by (simp add: token_names_def emit_def)

section \<open>Threshold expressions\<close>

lemma isdigit_not_isspace: "isdigit c \<Longrightarrow> \<not> isspace c"
  by (auto simp: isdigit_def isspace_def)

lemma isdigit_not_sign: "isdigit c \<Longrightarrow> c \<noteq> CHR ''-'' \<and> c \<noteq> CHR ''+''"
  by (auto simp: isdigit_def)

lemma digits_then_other:
  assumes "\<forall>c \<in> set ds. isdigit c" and "rest = [] \<or> \<not> isdigit (hd rest)"
  shows "takeWhile isdigit (ds @ rest) = ds" and "dropWhile isdigit (ds @ rest) = rest"
proof -
  from assms(2) have "takeWhile isdigit rest = []" "dropWhile isdigit rest = rest"
    by (cases rest; simp)+
  with assms(1) show "takeWhile isdigit (ds @ rest) = ds" "dropWhile isdigit (ds @ rest) = rest"
    by (simp_all add: takeWhile_append2 dropWhile_append2)
qed

text \<open>
  On a non-empty run of digits followed by something that is not a digit, \<open>strtoul\<close>
  returns the value of the run, capped at \<open>ULONG_MAX\<close>, and stops behind the run.
\<close>

lemma strtoul_digits:
  assumes "ds \<noteq> []" and "\<forall>c \<in> set ds. isdigit c" and "rest = [] \<or> \<not> isdigit (hd rest)"
  shows "strtoul (ds @ rest) = (word_of_nat (min (decimal ds) ULONG_MAX), rest)"
proof -
  from assms(1) obtain d ds' where ds: "ds = d # ds'"
    by (cases ds) auto
  with assms(2) have d: "isdigit d"
    by simp
  then have skip: "dropWhile isspace (ds @ rest) = ds @ rest"
    by (simp add: ds isdigit_not_isspace)
  from d have sign: "d \<noteq> CHR ''-''" "d \<noteq> CHR ''+''"
    by (simp_all add: isdigit_not_sign)
  have "strtoul (ds @ rest) =
          (if ULONG_MAX < decimal ds then word_of_nat ULONG_MAX else word_of_nat (decimal ds),
           rest)"
    unfolding strtoul_def skip
    using sign assms(1) digits_then_other [OF assms(2,3)]
    by (simp add: ds [symmetric] Let_def) (simp add: ds)
  then show ?thesis
    by (simp add: min_def not_less [symmetric])
qed

lemma memory_absolute_suffixed:
  assumes "ds \<noteq> []" and "\<forall>c \<in> set ds. isdigit c" and "\<forall>c \<in> set ws. isspace c"
    and "\<not> isspace c" and "\<not> isdigit c"
  shows "memory_absolute (ds @ ws @ c # rest) t
           = suffix_switch c (word_of_nat (min (decimal ds) ULONG_MAX)) t"
proof -
  have "ws @ c # rest = [] \<or> \<not> isdigit (hd (ws @ c # rest))"
    using assms(3,5) by (cases ws) (auto simp: isdigit_not_isspace)
  then have "strtoul (ds @ ws @ c # rest)
               = (word_of_nat (min (decimal ds) ULONG_MAX), ws @ c # rest)"
    using strtoul_digits [OF assms(1,2)] by blast
  moreover have "dropWhile isspace (ws @ c # rest) = c # rest"
    using assms(3,4) by (simp add: dropWhile_append2)
  ultimately show ?thesis
    by (simp add: memory_absolute_def)
qed

lemma unat_scaled: "unat (word_of_nat n * (k :: ulong)) = n * unat k mod 2 ^ 64"
  by (simp add: unat_word_ariths unat_of_nat mod_mult_left_eq)

text \<open>
  Claim C1, as stated, fails: the case \<open>M\<close> runs two multiplications by 1024, not three,
  \<open>G\<close> three, not four, and \<open>T\<close> four, not five.
\<close>

theorem memory_absolute_suffix_counterexample:
  "unat (memory_absolute ''1M'' 0) = 1024 ^ 2
   \<and> unat (memory_absolute ''1M'' 0) \<noteq> 1 * 1024 ^ 3
   \<and> unat (memory_absolute ''1G'' 0) = 1024 ^ 3
   \<and> unat (memory_absolute ''1G'' 0) \<noteq> 1 * 1024 ^ 4
   \<and> unat (memory_absolute ''1T'' 0) = 1024 ^ 4
   \<and> unat (memory_absolute ''1T'' 0) \<noteq> 1 * 1024 ^ 5"
  by (simp add: threshold_eval)

text \<open>
  Claim C1, amended. For a threshold that is a non-empty run of decimal digits with value
  \<open>N\<close>, optional white space and a unit suffix, the resolved value is \<open>N * 1024\<close> for
  \<open>k\<close> or \<open>K\<close>, \<open>N * 1024 ^ 2\<close> for \<open>m\<close> or \<open>M\<close>, \<open>N * 1024 ^ 3\<close> for \<open>g\<close> or
  \<open>G\<close> and \<open>N * 1024 ^ 4\<close> for \<open>t\<close> or \<open>T\<close>: each case runs the multiplications of the
  cases below it. The arithmetic is that of \<open>unsigned long\<close>: \<open>N\<close> is capped at
  \<open>ULONG_MAX\<close> by \<open>strtoul\<close> and the product is taken modulo \<open>2 ^ 64\<close>.
\<close>

theorem memory_absolute_suffix_cascade:
  assumes "ds \<noteq> []" and "\<forall>c \<in> set ds. isdigit c" and "\<forall>c \<in> set ws. isspace c"
  shows "(c = CHR ''k'' \<or> c = CHR ''K'' \<longrightarrow>
            unat (memory_absolute (ds @ ws @ c # rest) t)
              = min (decimal ds) ULONG_MAX * 1024 mod 2 ^ 64)
       \<and> (c = CHR ''m'' \<or> c = CHR ''M'' \<longrightarrow>
            unat (memory_absolute (ds @ ws @ c # rest) t)
              = min (decimal ds) ULONG_MAX * 1024 ^ 2 mod 2 ^ 64)
       \<and> (c = CHR ''g'' \<or> c = CHR ''G'' \<longrightarrow>
            unat (memory_absolute (ds @ ws @ c # rest) t)
              = min (decimal ds) ULONG_MAX * 1024 ^ 3 mod 2 ^ 64)
       \<and> (c = CHR ''t'' \<or> c = CHR ''T'' \<longrightarrow>
            unat (memory_absolute (ds @ ws @ c # rest) t)
              = min (decimal ds) ULONG_MAX * 1024 ^ 4 mod 2 ^ 64)"
proof -
  have letter: "\<not> isspace c \<and> \<not> isdigit c"
    if "c \<in> {CHR ''k'', CHR ''K'', CHR ''m'', CHR ''M'', CHR ''g'', CHR ''G'', CHR ''t'',
              CHR ''T''}"
    using that by (auto simp: isspace_def isdigit_def)
  have eq: "memory_absolute (ds @ ws @ c # rest) t
           = suffix_switch c (word_of_nat (min (decimal ds) ULONG_MAX)) t"
    if "c \<in> {CHR ''k'', CHR ''K'', CHR ''m'', CHR ''M'', CHR ''g'', CHR ''G'', CHR ''t'',
              CHR ''T''}"
    using memory_absolute_suffixed [OF assms] letter [OF that] by blast
  have k: "unat (word_of_nat n * (1024 :: ulong)) = n * 1024 mod 2 ^ 64" for n
    using unat_scaled [of n 1024] by simp
  have m: "unat (word_of_nat n * (1024 :: ulong) * 1024) = n * 1024 ^ 2 mod 2 ^ 64" for n
    using unat_scaled [of n "1024 * 1024"] by (simp add: mult.assoc)
  have g: "unat (word_of_nat n * (1024 :: ulong) * 1024 * 1024) = n * 1024 ^ 3 mod 2 ^ 64"
    for n
    using unat_scaled [of n "1024 * 1024 * 1024"] by (simp add: mult.assoc)
  have t: "unat (word_of_nat n * (1024 :: ulong) * 1024 * 1024 * 1024)
             = n * 1024 ^ 4 mod 2 ^ 64" for n
    using unat_scaled [of n "1024 * 1024 * 1024 * 1024"] by (simp add: mult.assoc)
  show ?thesis
    using eq k m g t by (auto simp: suffix_switch_def BINARY_BASE_def)
qed

text \<open>\<open>12 K\<close> is 12288 bytes and \<open>3m\<close> is 3145728 bytes.\<close>

theorem memory_absolute_suffix_cascade_witness:
  "''12'' \<noteq> [] \<and> list_all isdigit ''12'' \<and> list_all isspace '' ''
   \<and> unat (memory_absolute ''12 K'' 0) = 12288
   \<and> unat (memory_absolute ''3m'' 0) = 3145728"
proof -
  have 1: "''12'' \<noteq> []" "\<forall>c \<in> set ''12''. isdigit c" "\<forall>c \<in> set '' ''. isspace c"
    by (simp_all add: isdigit_def isspace_def)
  have 2: "''3'' \<noteq> []" "\<forall>c \<in> set ''3''. isdigit c" "\<forall>c \<in> set []. isspace c"
    by (simp_all add: isdigit_def)
  show ?thesis
    using memory_absolute_suffix_cascade [OF 1, of "CHR ''K''" "[]" 0]
      memory_absolute_suffix_cascade [OF 2, of "CHR ''m''" "[]" 0]
    by (simp add: isdigit_def isspace_def decimal_def digit_val_def ULONG_MAX_def)
qed

text \<open>
  Claim C5, as stated, fails where the product leaves the range of \<open>unsigned long\<close>: with
  a total of 16 GiB the threshold \<open>2000000000%\<close> is not \<open>total * N / 100\<close>, and with a
  total of \<open>2 ^ 60\<close> bytes the threshold \<open>50%\<close> is not.
\<close>

theorem memory_absolute_percent_counterexample:
  "unat (memory_absolute ''2000000000%'' 17179869184) = 159129942942904483
   \<and> unat (memory_absolute ''2000000000%'' 17179869184) \<noteq> 17179869184 * 2000000000 div 100
   \<and> unat (memory_absolute ''50%'' 1152921504606846976) = 23058430092136939
   \<and> unat (memory_absolute ''50%'' 1152921504606846976) \<noteq> 1152921504606846976 * 50 div 100"
  by (simp add: threshold_eval)

text \<open>
  Claim C5, amended. For a threshold that is a non-empty run of decimal digits with value
  \<open>N\<close>, optional white space and the character \<open>%\<close>, and for every total, the resolved
  value is \<open>total * N / 100\<close> in the arithmetic of \<open>unsigned long\<close>: \<open>N\<close> is capped at
  \<open>ULONG_MAX\<close> by \<open>strtoul\<close>, the product is taken modulo \<open>2 ^ 64\<close> and the division
  truncates. Whenever \<open>total * N\<close> is below \<open>2 ^ 64\<close> this is \<open>total * N / 100\<close>,
  truncated.
\<close>

theorem memory_absolute_percent:
  assumes "ds \<noteq> []" and "\<forall>c \<in> set ds. isdigit c" and "\<forall>c \<in> set ws. isspace c"
  shows "unat (memory_absolute (ds @ ws @ CHR ''%'' # rest) t)
           = (unat t * min (decimal ds) ULONG_MAX mod 2 ^ 64) div 100
       \<and> (unat t * decimal ds < 2 ^ 64 \<longrightarrow>
            unat (memory_absolute (ds @ ws @ CHR ''%'' # rest) t) = unat t * decimal ds div 100)"
proof -
  have "\<not> isspace CHR ''%''" "\<not> isdigit CHR ''%''"
    by (simp_all add: isspace_def isdigit_def)
  then have "memory_absolute (ds @ ws @ CHR ''%'' # rest) t
           = suffix_switch CHR ''%'' (word_of_nat (min (decimal ds) ULONG_MAX)) t"
    using memory_absolute_suffixed [OF assms] by blast
  then have wrapped: "unat (memory_absolute (ds @ ws @ CHR ''%'' # rest) t)
           = (unat t * min (decimal ds) ULONG_MAX mod 2 ^ 64) div 100"
    using unat_scaled [of "min (decimal ds) ULONG_MAX" t]
    by (simp add: suffix_switch_def unat_div mult.commute)
  have "unat (memory_absolute (ds @ ws @ CHR ''%'' # rest) t) = unat t * decimal ds div 100"
    if small: "unat t * decimal ds < 2 ^ 64"
  proof (cases "unat t = 0")
    case True
    with wrapped show ?thesis
      by simp
  next
    case False
    then have "decimal ds \<le> unat t * decimal ds"
      by simp
    then have "decimal ds < 2 ^ 64"
      using small by (rule le_less_trans)
    then have "decimal ds \<le> ULONG_MAX"
      by (simp add: ULONG_MAX_def)
    with wrapped small show ?thesis
      by (simp add: min_absorb1)
  qed
  with wrapped show ?thesis
    by blast
qed

text \<open>\<open>50 %\<close> of 1001 bytes is 500 bytes.\<close>

theorem memory_absolute_percent_witness:
  "''50'' \<noteq> [] \<and> list_all isdigit ''50'' \<and> list_all isspace '' ''
   \<and> unat (memory_absolute ''50 %'' 1001) = 500"
proof -
  have 1: "''50'' \<noteq> []" "\<forall>c \<in> set ''50''. isdigit c" "\<forall>c \<in> set '' ''. isspace c"
    by (simp_all add: isdigit_def isspace_def)
  show ?thesis
    using memory_absolute_percent [OF 1, of "[]" 1001]
    by (simp add: isdigit_def isspace_def decimal_def digit_val_def ULONG_MAX_def)
qed

section \<open>The reader\<close>

declare meminfo_loop.simps [simp del] lines_of.simps [simp del] human_loop.simps [simp del]

lemma meminfo_line_None: "meminfo_line (cstr line) m = None \<longleftrightarrow> \<not> recognized line"
  by (simp add: meminfo_line_def recognized_def meminfo_labels_def)

lemma matched_lines_step:
  "matched_lines cs =
     (if cs = [] then 0
      else (if recognized (fst (fgets 128 cs)) then 1 else 0)
           + matched_lines (snd (fgets 128 cs)))"
  unfolding matched_lines_def by (subst lines_of.simps) simp

text \<open>
  The loop decrements \<open>unread_fields\<close> once for every line that begins with a label,
  whichever label it is, and stops at 0.
\<close>

lemma meminfo_loop_unread:
  "0 < u \<Longrightarrow>
     fst (meminfo_loop cs u m)
       = (if int (matched_lines cs) < u then u - int (matched_lines cs) else 0)"
proof (induction cs u m rule: meminfo_loop.induct)
  case (1 cs u m)
  show ?case
  proof (cases "cs = []")
    case True
    with "1.prems" show ?thesis
      by (subst meminfo_loop.simps) (simp add: matched_lines_step)
  next
    case False
    show ?thesis
    proof (cases "meminfo_line (cstr (fst (fgets 128 cs))) m")
      case None
      then have "\<not> recognized (fst (fgets 128 cs))"
        by (simp add: meminfo_line_None)
      then have "matched_lines cs = matched_lines (snd (fgets 128 cs))"
        using False by (subst matched_lines_step) simp
      moreover have "fst (meminfo_loop cs u m) = fst (meminfo_loop (snd (fgets 128 cs)) u m)"
        using False None by (subst meminfo_loop.simps) simp
      ultimately show ?thesis
        using "1.IH"(1) [OF False None "1.prems"] by simp
    next
      case (Some m')
      then have "recognized (fst (fgets 128 cs))"
        using meminfo_line_None [of "fst (fgets 128 cs)" m] by simp
      then have count: "matched_lines cs = Suc (matched_lines (snd (fgets 128 cs)))"
        using False by (subst matched_lines_step) simp
      show ?thesis
      proof (cases "u - 1 = 0")
        case True
        then have "fst (meminfo_loop cs u m) = 0"
          using False Some by (subst meminfo_loop.simps) simp
        with True count show ?thesis
          by simp
      next
        case neq: False
        then have "fst (meminfo_loop cs u m)
                     = fst (meminfo_loop (snd (fgets 128 cs)) (u - 1) m')"
          using False Some by (subst meminfo_loop.simps) simp
        moreover from neq "1.prems" have "0 < u - 1"
          by simp
        ultimately show ?thesis
          using "1.IH"(2) [OF False Some neq] count by simp
      qed
    qed
  qed
qed

lemma read_linux_Cannot_Read:
  "read_linux (Some content) = Cannot_Read \<longleftrightarrow> matched_lines content < 6"
proof -
  obtain u m where loop: "meminfo_loop content 6 unread = (u, m)"
    by (cases "meminfo_loop content 6 unread")
  have "fst (meminfo_loop content 6 unread)
          = (if int (matched_lines content) < 6 then 6 - int (matched_lines content) else 0)"
    using meminfo_loop_unread [of 6 content unread] by simp
  with loop have "0 < u \<longleftrightarrow> matched_lines content < 6"
    by (simp split: if_splits)
  with loop show ?thesis
    by (simp add: read_linux_def split: sum.splits)
qed

lemmas reader_eval = meminfo_line_def BEGINS_WITH_def cstr_def strtoul_def isspace_def
  isdigit_def decimal_def digit_val_def ULONG_MAX_def unread_def

lemma six_totals:
  "meminfo_loop ''MemTotal: 1 kB\<newline>MemTotal: 1 kB\<newline>MemTotal: 1 kB\<newline>MemTotal: 1 kB\<newline>MemTotal: 1 kB\<newline>MemTotal: 1 kB\<newline>'' 6 unread
     = (0, \<lparr>MemTotal = Some 1, MemFree = None, MemAvailable = None, Buffers = None,
            Cached = None, Shmem = None\<rparr>)"
  by (simp add: meminfo_loop.simps reader_eval)

lemma four_fields:
  "matched_lines ''MemTotal: 8 kB\<newline>MemFree: 4 kB\<newline>Buffers: 1 kB\<newline>Cached: 1 kB\<newline>'' = 4"
  by (simp add: matched_lines_def lines_of.simps recognized_def meminfo_labels_def
      BEGINS_WITH_def cstr_def)

text \<open>
  Claim C9. The reader counts the lines that begin with one of the six labels, with
  multiplicity: \<open>unread_fields\<close> ends at 6 minus their number, or at 0 from the sixth
  such line on, and the failure branch behind the loop is taken exactly when the content
  has fewer than six of them. Six lines \<open>MemTotal\<close> reach the success path with the
  other five counters never assigned, and the conversion to bytes then reads \<open>ram_free\<close>
  unassigned.
\<close>

theorem meminfo_counts_lines:
  "fst (meminfo_loop content 6 unread)
     = (if matched_lines content < 6 then 6 - int (matched_lines content) else 0)
   \<and> (read_linux (Some content) = Cannot_Read \<longleftrightarrow> matched_lines content < 6)
   \<and> meminfo_loop ''MemTotal: 1 kB\<newline>MemTotal: 1 kB\<newline>MemTotal: 1 kB\<newline>MemTotal: 1 kB\<newline>MemTotal: 1 kB\<newline>MemTotal: 1 kB\<newline>'' 6 unread
       = (0, \<lparr>MemTotal = Some 1, MemFree = None, MemAvailable = None, Buffers = None,
              Cached = None, Shmem = None\<rparr>)
   \<and> print_memory env (Linux (Some ''MemTotal: 1 kB\<newline>MemTotal: 1 kB\<newline>MemTotal: 1 kB\<newline>MemTotal: 1 kB\<newline>MemTotal: 1 kB\<newline>MemTotal: 1 kB\<newline>'')) format format_degraded threshold_degraded
         threshold_critical memory_used_method u decimals
       = Inl (Uninitialized_Read ''ram_free'')"
proof -
  have 1: "fst (meminfo_loop content 6 unread)
     = (if matched_lines content < 6 then 6 - int (matched_lines content) else 0)"
    using meminfo_loop_unread [of 6 content unread] by simp
  have "read_linux (Some ''MemTotal: 1 kB\<newline>MemTotal: 1 kB\<newline>MemTotal: 1 kB\<newline>MemTotal: 1 kB\<newline>MemTotal: 1 kB\<newline>MemTotal: 1 kB\<newline>'') = Undefined (Uninitialized_Read ''ram_free'')"
    by (simp add: read_linux_def six_totals to_bytes_def)
  then have 2: "print_memory env (Linux (Some ''MemTotal: 1 kB\<newline>MemTotal: 1 kB\<newline>MemTotal: 1 kB\<newline>MemTotal: 1 kB\<newline>MemTotal: 1 kB\<newline>MemTotal: 1 kB\<newline>'')) format format_degraded threshold_degraded
         threshold_critical memory_used_method u decimals
       = Inl (Uninitialized_Read ''ram_free'')"
    by (simp add: print_memory_def)
  from 1 2 read_linux_Cannot_Read [of content] six_totals show ?thesis
    by blast
qed

text \<open>Four lines with a label leave \<open>unread_fields\<close> at 2, and the read fails.\<close>

theorem meminfo_counts_lines_witness:
  "fst (meminfo_loop ''MemTotal: 8 kB\<newline>MemFree: 4 kB\<newline>Buffers: 1 kB\<newline>Cached: 1 kB\<newline>'' 6 unread) = 2 \<and> read_linux (Some ''MemTotal: 8 kB\<newline>MemFree: 4 kB\<newline>Buffers: 1 kB\<newline>Cached: 1 kB\<newline>'') = Cannot_Read"
  using meminfo_counts_lines
    [of "''MemTotal: 8 kB\<newline>MemFree: 4 kB\<newline>Buffers: 1 kB\<newline>Cached: 1 kB\<newline>''"
      "\<lparr>pct_mark = ''%'', color_start = id, color_end = []\<rparr>" "[]" None None None "[]" "[]" 0]
  by (simp add: four_fields)

text \<open>
  Claim C2, as stated, fails: the fixed text of the failure path is \<open>can't read memory\<close>,
  not \<open>cannot read memory\<close>, both when the file cannot be opened and when it has only
  four of the six fields.
\<close>

theorem cannot_read_counterexample:
  "print_memory \<lparr>pct_mark = ''%'', color_start = id, color_end = []\<rparr> (Linux None) ''%free'' None None None ''classical'' ''auto'' 1
     = Inr \<lparr>full_text = ''can't read memory'', color = None,
              diagnostic = ''i3status: Cannot read system memory\<newline>''\<rparr>
   \<and> print_memory \<lparr>pct_mark = ''%'', color_start = id, color_end = []\<rparr> (Linux (Some ''MemTotal: 8 kB\<newline>MemFree: 4 kB\<newline>Buffers: 1 kB\<newline>Cached: 1 kB\<newline>'')) ''%free'' None None None ''classical'' ''auto'' 1
     = Inr \<lparr>full_text = ''can't read memory'', color = None,
              diagnostic = ''i3status: Cannot read system memory\<newline>''\<rparr>
   \<and> ''can't read memory'' \<noteq> ''cannot read memory''"
  by (simp add: print_memory_def read_linux_def meminfo_loop.simps reader_eval)

text \<open>
  Claim C2, amended. Whenever the read fails, the output is exactly the fixed text
  \<open>can't read memory\<close>, with no colour, together with the diagnostic
  \<open>i3status: Cannot read system memory\<close> on the error stream, whatever the formats,
  thresholds, method, unit and decimals are: no format is walked. The read fails when
  \<open>/proc/meminfo\<close> cannot be opened and when fewer than six of its lines begin with one
  of the six labels; on FreeBSD it fails when one of the three system queries fails.
\<close>

theorem cannot_read_output:
  "print_memory env (Linux None) format format_degraded threshold_degraded
       threshold_critical memory_used_method u decimals
     = Inr \<lparr>full_text = ''can't read memory'', color = None,
              diagnostic = ''i3status: Cannot read system memory\<newline>''\<rparr>
   \<and> (matched_lines content < 6 \<longrightarrow>
        print_memory env (Linux (Some content)) format format_degraded threshold_degraded
            threshold_critical memory_used_method u decimals
          = Inr \<lparr>full_text = ''can't read memory'', color = None,
              diagnostic = ''i3status: Cannot read system memory\<newline>''\<rparr>)
   \<and> (page_size = None \<or> physmem = None \<or> free_count = None \<longrightarrow>
        print_memory env (FreeBSD page_size physmem free_count) format format_degraded
            threshold_degraded threshold_critical memory_used_method u decimals
          = Inr \<lparr>full_text = ''can't read memory'', color = None,
              diagnostic = ''i3status: Cannot read system memory\<newline>''\<rparr>)"
proof -
  have 1: "read_memory (Linux None) = Cannot_Read"
    by (simp add: read_linux_def)
  have 2: "read_memory (Linux (Some content)) = Cannot_Read" if "matched_lines content < 6"
    using that by (simp add: read_linux_Cannot_Read)
  have 3: "read_memory (FreeBSD page_size physmem free_count) = Cannot_Read"
    if "page_size = None \<or> physmem = None \<or> free_count = None"
    using that by (auto simp: read_freebsd_def split: option.splits)
  from 1 2 3 show ?thesis
    by (simp add: print_memory_def)
qed

text \<open>A file with four of the six fields gives the failure text, whatever the format.\<close>

theorem cannot_read_output_witness:
  "matched_lines ''MemTotal: 8 kB\<newline>MemFree: 4 kB\<newline>Buffers: 1 kB\<newline>Cached: 1 kB\<newline>'' < 6
   \<and> print_memory \<lparr>pct_mark = ''%'', color_start = id, color_end = []\<rparr> (Linux (Some ''MemTotal: 8 kB\<newline>MemFree: 4 kB\<newline>Buffers: 1 kB\<newline>Cached: 1 kB\<newline>'')) ''%used of %total'' (Some ''%free'') (Some ''10%'')
         None ''classical'' ''auto'' 1
       = Inr \<lparr>full_text = ''can't read memory'', color = None,
              diagnostic = ''i3status: Cannot read system memory\<newline>''\<rparr>"
  using cannot_read_output [of "\<lparr>pct_mark = ''%'', color_start = id, color_end = []\<rparr>" "''%used of %total''" "Some ''%free''" "Some ''10%''" None
      "''classical''" "''auto''" 1 "''MemTotal: 8 kB\<newline>MemFree: 4 kB\<newline>Buffers: 1 kB\<newline>Cached: 1 kB\<newline>''"]
  by (simp add: four_fields)

section \<open>Rounding to double precision\<close>

lemma floorlog2_rat_bounds:
  assumes "0 < n"
  shows "power_int (2::rat) (int (floorlog 2 n) - 1) \<le> of_nat n"
    and "of_nat n < power_int (2::rat) (int (floorlog 2 n))"
proof -
  from assms have "0 < floorlog 2 n"
    using floorlog_eq_zero_iff [of 2 n] by linarith
  then obtain l where l: "floorlog 2 n = Suc l"
    by (cases "floorlog 2 n") auto
  have b: "2 ^ l \<le> n" "n < 2 ^ Suc l"
    using floorlog_bounds [of n 2] assms by (simp_all add: l)
  have "(of_nat (2 ^ l) :: rat) \<le> of_nat n"
    using b(1) by (simp only: of_nat_le_iff)
  then show "power_int (2::rat) (int (floorlog 2 n) - 1) \<le> of_nat n"
    by (simp add: l)
  have "(of_nat n :: rat) < of_nat (2 ^ Suc l)"
    using b(2) by (simp only: of_nat_less_iff)
  then have "(of_nat n :: rat) < 2 ^ Suc l"
    by simp
  moreover have "power_int (2::rat) (int (floorlog 2 n)) = 2 ^ Suc l"
    unfolding l by (rule power_int_of_nat)
  ultimately show "of_nat n < power_int (2::rat) (int (floorlog 2 n))"
    by (simp only:)
qed

text \<open>The exponent that \<open>binary_exponent\<close> finds leaves 53 significant bits.\<close>

lemma binary_exponent_bounds:
  assumes "0 < x"
  shows "2 ^ 52 \<le> x / power_int 2 (binary_exponent x)"
    and "x / power_int 2 (binary_exponent x) < 2 ^ 53"
proof -
  obtain a b where q: "quotient_of x = (a, b)"
    by (cases "quotient_of x")
  then have b: "0 < b" and x: "x = of_int a / of_int b"
    by (simp_all add: quotient_of_denom_pos quotient_of_div)
  with assms have a: "0 < a"
    by (simp add: zero_less_divide_iff)
  define A B where "A = nat a" and "B = nat b"
  with a b have AB: "0 < A" "0 < B" and xAB: "x = of_nat A / of_nat B"
    by (simp_all add: x)
  define la lb where "la = int (floorlog 2 A)" and "lb = int (floorlog 2 B)"
  define e0 where "e0 = la - lb - 53"
  have A1: "power_int (2::rat) (la - 1) \<le> of_nat A" and A2: "of_nat A < power_int (2::rat) la"
    using floorlog2_rat_bounds [OF AB(1)] by (simp_all add: la_def)
  have B1: "power_int (2::rat) (lb - 1) \<le> of_nat B" and B2: "of_nat B < power_int (2::rat) lb"
    using floorlog2_rat_bounds [OF AB(2)] by (simp_all add: lb_def)
  have pos: "0 < power_int (2::rat) k" for k
    by (simp add: zero_less_power_int)
  have "power_int (2::rat) (la - 1) / power_int 2 lb < of_nat A / of_nat B"
    using pos A1 AB(2) B2 by (intro frac_less2) simp_all
  then have lower: "power_int (2::rat) (la - 1 - lb) < x"
    by (simp add: power_int_diff xAB)
  have "of_nat A / of_nat B < power_int (2::rat) la / power_int 2 (lb - 1)"
    using pos A2 B1 by (intro frac_less) simp_all
  then have upper: "x < power_int (2::rat) (la - (lb - 1))"
    by (simp add: power_int_diff xAB)
  have "power_int (2::rat) (la - 1 - lb) / power_int 2 e0 < x / power_int 2 e0"
    using lower pos by (simp add: divide_strict_right_mono)
  moreover have "power_int (2::rat) (la - 1 - lb) / power_int 2 e0 = power_int 2 (la - 1 - lb - e0)"
    by (simp add: power_int_diff)
  moreover have "la - 1 - lb - e0 = 52"
    by (simp add: e0_def)
  ultimately have low0: "2 ^ 52 < x / power_int 2 e0"
    by simp
  have "x / power_int 2 e0 < power_int (2::rat) (la - (lb - 1)) / power_int 2 e0"
    using upper pos by (simp add: divide_strict_right_mono)
  moreover have "power_int (2::rat) (la - (lb - 1)) / power_int 2 e0 = power_int 2 (la - (lb - 1) - e0)"
    by (simp add: power_int_diff)
  moreover have "la - (lb - 1) - e0 = 54"
    by (simp add: e0_def)
  ultimately have up0: "x / power_int 2 e0 < 2 ^ 54"
    by simp
  have be: "binary_exponent x = (if x / power_int 2 e0 < 2 ^ 53 then e0 else e0 + 1)"
    by (simp add: binary_exponent_def q e0_def la_def lb_def A_def B_def Let_def)
  have half: "x / power_int 2 (e0 + 1) = x / power_int 2 e0 / 2"
    by (simp add: power_int_add)
  show "2 ^ 52 \<le> x / power_int 2 (binary_exponent x)"
    using low0 by (simp add: be half)
  show "x / power_int 2 (binary_exponent x) < 2 ^ 53"
    using up0 by (simp add: be half)
qed

lemma round_half_even_of_int [simp]: "round_half_even (of_int n) = n"
  by (simp add: round_half_even_def)

lemma round_half_even_bounds: "\<lfloor>x\<rfloor> \<le> round_half_even x \<and> round_half_even x \<le> \<lfloor>x\<rfloor> + 1"
  by (simp add: round_half_even_def Let_def)

text \<open>
  The doubles of the model: the numbers \<open>m * 2 ^ k\<close> with a significand \<open>m\<close> below
  \<open>2 ^ 53\<close>. Rounding leaves them as they are, and every rounded result is one of them.
\<close>

lemma round_binary64_exact:
  assumes "m < 2 ^ 53"
  shows "round_binary64 (of_nat m * power_int 2 k) = of_nat m * power_int 2 k"
proof (cases "m = 0")
  case True
  then show ?thesis
    by (simp add: round_binary64_def)
next
  case False
  define x :: rat where "x = of_nat m * power_int 2 k"
  define e where "e = binary_exponent x"
  have pos: "0 < power_int (2::rat) j" for j
    by (simp add: zero_less_power_int)
  from False have x: "0 < x"
    by (simp add: x_def pos)
  have y: "x / power_int 2 e = of_nat m * power_int 2 (k - e)"
    by (simp add: x_def power_int_diff)
  have "e \<le> k"
  proof (rule ccontr)
    assume "\<not> e \<le> k"
    then have "k - e \<le> - 1"
      by simp
    then have "power_int (2::rat) (k - e) \<le> power_int 2 (- 1)"
      by (intro power_int_increasing) simp_all
    then have "of_nat m * power_int (2::rat) (k - e) \<le> of_nat m * (1 / 2)"
      by (intro mult_left_mono) simp_all
    moreover have "(of_nat m :: rat) < 2 ^ 53"
      using assms by (metis of_nat_less_iff of_nat_numeral of_nat_power)
    ultimately have "x / power_int 2 e < 2 ^ 52"
      by (simp add: y)
    with binary_exponent_bounds(1) [OF x] show False
      by (simp add: e_def)
  qed
  then obtain j where j: "k - e = int j"
    by (metis diff_ge_0_iff_ge zero_le_imp_eq_int)
  then have "x / power_int 2 e = of_int (int (m * 2 ^ j))"
    by (simp add: y)
  then have "round_half_even (x / power_int 2 e) = int (m * 2 ^ j)"
    by (simp only: round_half_even_of_int)
  then have "round_binary64 x = of_nat (m * 2 ^ j) * power_int 2 e"
    using x by (simp add: round_binary64_def e_def)
  also have "\<dots> = of_nat m * (power_int 2 (int j) * power_int 2 e)"
    by simp
  also have "power_int (2::rat) (int j) * power_int 2 e = power_int 2 (int j + e)"
    by (simp add: power_int_add del: power_int_of_nat)
  also from j have "int j + e = k"
    by simp
  finally show ?thesis
    by (simp add: x_def)
qed

lemma round_binary64_id: "representable x \<Longrightarrow> round_binary64 x = x"
  by (auto simp: representable_def round_binary64_exact)

lemma representable_of_nat: "n < 2 ^ 53 \<Longrightarrow> representable (of_nat n)"
  unfolding representable_def by (rule exI [of _ n], rule exI [of _ 0]) simp

lemma representable_div_1024:
  assumes "representable x"
  shows "representable (x / 1024)"
proof -
  from assms obtain m k where m: "m < (2::nat) ^ 53" and x: "x = of_nat m * power_int 2 k"
    by (auto simp: representable_def)
  have "power_int (2::rat) (k - 10) = power_int 2 k / 1024"
    by (simp add: power_int_diff)
  then have "x / 1024 = of_nat m * power_int 2 (k - 10)"
    by (simp add: x)
  with m show ?thesis
    unfolding representable_def by blast
qed

lemma rounded_significand:
  assumes "0 < x"
  shows "2 ^ 52 \<le> round_half_even (x / power_int 2 (binary_exponent x))"
    and "round_half_even (x / power_int 2 (binary_exponent x)) \<le> 2 ^ 53"
proof -
  define y where "y = x / power_int 2 (binary_exponent x)"
  have y: "2 ^ 52 \<le> y" "y < 2 ^ 53"
    using binary_exponent_bounds [OF assms] by (simp_all add: y_def)
  have "of_int (2 ^ 52) \<le> y"
    using y(1) by simp
  then have f1: "(2::int) ^ 52 \<le> \<lfloor>y\<rfloor>"
    by (simp only: le_floor_iff)
  have "y < of_int (2 ^ 53)"
    using y(2) by simp
  then have f2: "\<lfloor>y\<rfloor> < (2::int) ^ 53"
    by (simp only: floor_less_iff)
  from round_half_even_bounds [of y] have b: "\<lfloor>y\<rfloor> \<le> round_half_even y"
    "round_half_even y \<le> \<lfloor>y\<rfloor> + 1"
    by blast+
  from f1 b(1) show "2 ^ 52 \<le> round_half_even (x / power_int 2 (binary_exponent x))"
    unfolding y_def by (rule order_trans)
  from f2 have "\<lfloor>y\<rfloor> + 1 \<le> (2::int) ^ 53"
    by (simp only: zless_imp_add1_zle)
  with b(2) show "round_half_even (x / power_int 2 (binary_exponent x)) \<le> 2 ^ 53"
    unfolding y_def by (rule order_trans)
qed

lemma round_binary64_pos:
  "0 < x \<Longrightarrow>
     round_binary64 x
       = of_int (round_half_even (x / power_int 2 (binary_exponent x)))
         * power_int 2 (binary_exponent x)"
  by (simp add: round_binary64_def)

lemma representable_zero: "representable 0"
  unfolding representable_def by (rule exI [of _ 0], rule exI [of _ 0]) simp

lemma representable_significand:
  assumes "0 \<le> n" and "n \<le> 2 ^ 53"
  shows "representable (of_int n * power_int 2 e)"
proof (cases "n = 2 ^ 53")
  case True
  have "power_int (2::rat) (e + 1) = power_int 2 e * 2"
    by (simp add: power_int_add)
  then have "of_int n * power_int (2::rat) e = of_nat (2 ^ 52) * power_int 2 (e + 1)"
    by (simp add: True)
  moreover have "(2::nat) ^ 52 < 2 ^ 53"
    by simp
  ultimately show ?thesis
    unfolding representable_def by blast
next
  case False
  with assms have "nat n < 2 ^ 53"
    by simp
  moreover from assms have "of_int n * power_int (2::rat) e = of_nat (nat n) * power_int 2 e"
    by simp
  ultimately show ?thesis
    unfolding representable_def by blast
qed

lemma representable_round: "representable (round_binary64 x)"
proof (cases "0 < x")
  case False
  then have "round_binary64 x = 0"
    by (simp add: round_binary64_def)
  then show ?thesis
    by (simp only: representable_zero)
next
  case True
  from rounded_significand [OF True]
  have "0 \<le> round_half_even (x / power_int 2 (binary_exponent x))"
    "round_half_even (x / power_int 2 (binary_exponent x)) \<le> 2 ^ 53"
    by simp_all
  then show ?thesis
    unfolding round_binary64_pos [OF True] by (rule representable_significand)
qed

lemma double_of_ulong_representable: "representable (double_of_ulong w)"
  by (simp add: double_of_ulong_def representable_round)

text \<open>A byte count below \<open>2 ^ 53\<close> is converted to a double without rounding.\<close>

lemma double_of_ulong_small: "unat w < 2 ^ 53 \<Longrightarrow> double_of_ulong w = of_nat (unat w)"
  unfolding double_of_ulong_def by (rule round_binary64_id) (rule representable_of_nat)

lemma double_BINARY_BASE: "double_of_ulong BINARY_BASE = 1024"
  by (simp add: double_of_ulong_small BINARY_BASE_def)

text \<open>Dividing a double by 1024 is exact.\<close>

lemma fl_div_1024: "representable x \<Longrightarrow> fl_div x 1024 = x / 1024"
  by (simp add: fl_div_def round_binary64_id representable_div_1024)

section \<open>Human readable byte counts\<close>

text \<open>
  The loop leaves \<open>base\<close> divided by 1024 once for every step from the exponent it starts
  with to the one it stops at; it goes on from an exponent exactly when the value there is
  at least 1024, the exponent is below \<open>MAX_EXPONENT\<close> and the unit is not the symbol of
  the exponent.
\<close>

lemma human_loop_scaling:
  "representable base \<Longrightarrow> e0 \<le> MAX_EXPONENT \<Longrightarrow>
     \<exists>e. e0 \<le> e \<and> e \<le> MAX_EXPONENT
       \<and> human_loop u base e0 = (base / 1024 ^ (e - e0), e)
       \<and> (\<forall>j. e0 \<le> j \<and> j < e \<longrightarrow>
             1024 \<le> base / 1024 ^ (j - e0) \<and> strcasecmp u (iec_symbols ! j) \<noteq> 0)
       \<and> (base / 1024 ^ (e - e0) < 1024 \<or> e = MAX_EXPONENT
           \<or> strcasecmp u (iec_symbols ! e) = 0)"
proof (induction u base e0 rule: human_loop.induct)
  case (1 u base e0)
  show ?case
  proof (cases "1024 \<le> base \<and> e0 < MAX_EXPONENT \<and> strcasecmp u (iec_symbols ! e0) \<noteq> 0")
    case False
    then have "human_loop u base e0 = (base, e0)"
      by (subst human_loop.simps) (auto simp: double_BINARY_BASE)
    moreover from False "1.prems"(2) have "base < 1024 \<or> e0 = MAX_EXPONENT
        \<or> strcasecmp u (iec_symbols ! e0) = 0"
      by auto
    ultimately show ?thesis
      using "1.prems"(2) by (intro exI [of _ e0]) simp
  next
    case True
    then have step: "human_loop u base e0 = human_loop u (base / 1024) (e0 + 1)"
      using "1.prems"(1)
      by (subst human_loop.simps) (simp add: double_BINARY_BASE fl_div_1024)
    from True have cont: "double_of_ulong BINARY_BASE \<le> base \<and> e0 < MAX_EXPONENT"
      "strcasecmp u (iec_symbols ! e0) \<noteq> 0"
      by (simp_all add: double_BINARY_BASE)
    have "representable (fl_div base (double_of_ulong BINARY_BASE))"
      "e0 + 1 \<le> MAX_EXPONENT"
      using True "1.prems"(1) by (simp_all add: double_BINARY_BASE fl_div_1024 representable_div_1024)
    from "1.IH" [OF cont this] obtain e where e: "e0 + 1 \<le> e" "e \<le> MAX_EXPONENT"
      "human_loop u (base / 1024) (e0 + 1) = (base / 1024 / 1024 ^ (e - (e0 + 1)), e)"
      "\<forall>j. e0 + 1 \<le> j \<and> j < e \<longrightarrow>
             1024 \<le> base / 1024 / 1024 ^ (j - (e0 + 1)) \<and> strcasecmp u (iec_symbols ! j) \<noteq> 0"
      "base / 1024 / 1024 ^ (e - (e0 + 1)) < 1024 \<or> e = MAX_EXPONENT
           \<or> strcasecmp u (iec_symbols ! e) = 0"
      using "1.prems"(1) by (auto simp: double_BINARY_BASE fl_div_1024)
    have shift: "base / 1024 / 1024 ^ (j - (e0 + 1)) = base / 1024 ^ (j - e0)" if "e0 + 1 \<le> j" for j
    proof -
      from that have "j - e0 = Suc (j - (e0 + 1))"
        by simp
      then show ?thesis
        by simp
    qed
    have "\<forall>j. e0 \<le> j \<and> j < e \<longrightarrow>
             1024 \<le> base / 1024 ^ (j - e0) \<and> strcasecmp u (iec_symbols ! j) \<noteq> 0"
    proof (intro allI impI)
      fix j assume j: "e0 \<le> j \<and> j < e"
      show "1024 \<le> base / 1024 ^ (j - e0) \<and> strcasecmp u (iec_symbols ! j) \<noteq> 0"
      proof (cases "j = e0")
        case True
        with \<open>1024 \<le> base \<and> e0 < MAX_EXPONENT \<and> strcasecmp u (iec_symbols ! e0) \<noteq> 0\<close>
        show ?thesis by simp
      next
        case False
        with j have "e0 + 1 \<le> j" by simp
        with e(4) j shift [of j] show ?thesis by auto
      qed
    qed
    with e step shift [of e] show ?thesis
      by (intro exI [of _ e]) auto
  qed
qed

lemma human_loop_step:
  "representable base \<Longrightarrow>
     human_loop u base e =
       (if 1024 \<le> base \<and> e < MAX_EXPONENT then
          (if strcasecmp u (iec_symbols ! e) = 0 then (base, e)
           else human_loop u (base / 1024) (e + 1))
        else (base, e))"
  by (subst human_loop.simps) (simp add: double_BINARY_BASE fl_div_1024)

lemma representable_numeral: "numeral k < (2::nat) ^ 53 \<Longrightarrow> representable (numeral k)"
  using representable_of_nat [of "numeral k"] by simp

lemma representable_one: "representable 1"
  using representable_of_nat [of 1] by simp

lemmas human_eval = MAX_EXPONENT_def iec_symbols_def tolower_def printf_f_def
  round_half_even_def digit_char_def

text \<open>
  Claim C6. \<open>print_bytes_human\<close> divides the byte count, as a double, by 1024 for every
  exponent below the one it stops at: at each of those the value is at least 1024, a
  larger symbol exists and the unit is not the symbol of that exponent (compared without
  regard to case); it stops at the first exponent where the value is below 1024, or which
  is the last one, or whose symbol is the unit. The value is written with the configured
  number of decimals, a space and the symbol. A byte count below \<open>2 ^ 53\<close> is converted
  to a double exactly. With a unit that is no symbol (\<open>auto\<close>) and 1 decimal, 1024 bytes
  give \<open>1.0 KiB\<close>, 1048576 bytes give \<open>1.0 MiB\<close> and 512 bytes give \<open>512.0 B\<close>.
\<close>

theorem print_bytes_human_scaling:
  "(\<exists>e \<le> MAX_EXPONENT.
      print_bytes_human bytes u decimals
        = printf_f decimals (double_of_ulong bytes / 1024 ^ e) @ '' '' @ iec_symbols ! e
      \<and> (\<forall>j < e. 1024 \<le> double_of_ulong bytes / 1024 ^ j
                    \<and> strcasecmp u (iec_symbols ! j) \<noteq> 0)
      \<and> (double_of_ulong bytes / 1024 ^ e < 1024 \<or> e = MAX_EXPONENT
          \<or> strcasecmp u (iec_symbols ! e) = 0))
   \<and> (unat bytes < 2 ^ 53 \<longrightarrow> double_of_ulong bytes = of_nat (unat bytes))
   \<and> print_bytes_human 1024 ''auto'' 1 = ''1.0 KiB''
   \<and> print_bytes_human 1048576 ''auto'' 1 = ''1.0 MiB''
   \<and> print_bytes_human 512 ''auto'' 1 = ''512.0 B''"
proof -
  from human_loop_scaling [of "double_of_ulong bytes" 0 u] double_of_ulong_representable
  obtain e where e: "e \<le> MAX_EXPONENT"
    "human_loop u (double_of_ulong bytes) 0 = (double_of_ulong bytes / 1024 ^ e, e)"
    "\<forall>j. j < e \<longrightarrow> 1024 \<le> double_of_ulong bytes / 1024 ^ j
                    \<and> strcasecmp u (iec_symbols ! j) \<noteq> 0"
    "double_of_ulong bytes / 1024 ^ e < 1024 \<or> e = MAX_EXPONENT
          \<or> strcasecmp u (iec_symbols ! e) = 0"
    by auto
  from e(2) have "print_bytes_human bytes u decimals
        = printf_f decimals (double_of_ulong bytes / 1024 ^ e) @ '' '' @ iec_symbols ! e"
    by (simp add: print_bytes_human_def)
  with e(1,3,4) have 1: "\<exists>e \<le> MAX_EXPONENT.
      print_bytes_human bytes u decimals
        = printf_f decimals (double_of_ulong bytes / 1024 ^ e) @ '' '' @ iec_symbols ! e
      \<and> (\<forall>j < e. 1024 \<le> double_of_ulong bytes / 1024 ^ j
                    \<and> strcasecmp u (iec_symbols ! j) \<noteq> 0)
      \<and> (double_of_ulong bytes / 1024 ^ e < 1024 \<or> e = MAX_EXPONENT
          \<or> strcasecmp u (iec_symbols ! e) = 0)"
    by blast
  have 2: "unat bytes < 2 ^ 53 \<longrightarrow> double_of_ulong bytes = of_nat (unat bytes)"
    by (simp add: double_of_ulong_small)
  have d: "double_of_ulong 1024 = 1024" "double_of_ulong 1048576 = 1048576"
    "double_of_ulong 512 = 512"
    using double_of_ulong_small [of 1024] double_of_ulong_small [of 1048576]
      double_of_ulong_small [of 512] by simp_all
  have stop: "human_loop ''auto'' 1 e = (1, e)" for e
    by (subst human_loop_step) (simp_all add: representable_one)
  have k: "human_loop ''auto'' 1024 0 = (1, 1)"
    by (subst human_loop_step) (simp_all add: stop representable_numeral human_eval)
  have "human_loop ''auto'' 1024 (Suc 0) = (1, 2)"
    by (subst human_loop_step) (simp_all add: stop representable_numeral human_eval)
  then have m: "human_loop ''auto'' 1048576 0 = (1, 2)"
    by (subst human_loop_step) (simp_all add: representable_numeral human_eval)
  have b: "human_loop ''auto'' 512 0 = (512, 0)"
    by (subst human_loop_step) (simp_all add: representable_numeral)
  have 3: "print_bytes_human 1024 ''auto'' 1 = ''1.0 KiB''"
    by (simp add: print_bytes_human_def d k human_eval)
  have 4: "print_bytes_human 1048576 ''auto'' 1 = ''1.0 MiB''"
    by (simp add: print_bytes_human_def d m human_eval)
  have 5: "print_bytes_human 512 ''auto'' 1 = ''512.0 B''"
    by (simp add: print_bytes_human_def d b human_eval)
  from 1 2 3 4 5 show ?thesis
    by blast
qed

text \<open>
  With the unit \<open>kib\<close> and no decimals, 3 MiB stop at the exponent of \<open>KiB\<close> and give
  \<open>3072 KiB\<close>.
\<close>

theorem print_bytes_human_scaling_witness:
  "print_bytes_human 3145728 ''kib'' 0 = ''3072 KiB''"
proof -
  have d: "double_of_ulong 3145728 = 3145728"
    using double_of_ulong_small [of 3145728] by simp
  from print_bytes_human_scaling [of 3145728 "''kib''" 0, unfolded d]
  obtain e where e: "e \<le> MAX_EXPONENT"
    "print_bytes_human 3145728 ''kib'' 0
       = printf_f 0 (3145728 / 1024 ^ e) @ '' '' @ iec_symbols ! e"
    "\<forall>j < e. 1024 \<le> (3145728::rat) / 1024 ^ j \<and> strcasecmp ''kib'' (iec_symbols ! j) \<noteq> 0"
    "(3145728::rat) / 1024 ^ e < 1024 \<or> e = MAX_EXPONENT
       \<or> strcasecmp ''kib'' (iec_symbols ! e) = 0"
    by blast
  have "e \<noteq> 0"
  proof
    assume "e = 0"
    with e(4) show False
      by (simp add: human_eval)
  qed
  moreover have "\<not> 1 < e"
  proof
    assume "1 < e"
    with e(3) have "strcasecmp ''kib'' (iec_symbols ! 1) \<noteq> 0"
      by blast
    then show False
      by (simp add: human_eval)
  qed
  ultimately have "e = 1"
    by simp
  with e(2) show ?thesis
    by (simp add: human_eval)
qed

end
